theory Spec2Isabelle
  imports
    Main
    "HOL-Library.Char_ord"
    "HOL-Library.Multiset"
    "HOL-Library.List_Lexorder"
    "HOL-Library.Product_Lexorder"
    "HOL-Library.Sublist"
begin

section \<open>Python strings\<close>

text \<open>
  A Python \<open>str\<close> is modelled as a \<^typ>\<open>string\<close>. Comparison is the lexicographic
  order of the characters' codes, as in Python. Character classes and case mapping are
  those of the ASCII range: a character outside it is neither a letter, a digit nor
  white space, and \<open>lower\<close>/\<open>upper\<close> leave it alone.
\<close>

definition is_space :: "char \<Rightarrow> bool" where
  \<comment> \<open>\<open>str.isspace\<close> and the regular expression class \<open>\s\<close>\<close>
  "is_space c = (c \<in> set [CHR 0x09, CHR 0x0A, CHR 0x0B, CHR 0x0C, CHR 0x0D,
                            CHR 0x1C, CHR 0x1D, CHR 0x1E, CHR 0x1F, CHR '' ''])"

definition is_digit :: "char \<Rightarrow> bool" where
  \<comment> \<open>the regular expression class \<open>\d\<close>\<close>
  "is_digit c = (c \<in> set ''0123456789'')"

definition lower_char :: "char \<Rightarrow> char" where
  "lower_char c =
     (case map_of (zip ''ABCDEFGHIJKLMNOPQRSTUVWXYZ'' ''abcdefghijklmnopqrstuvwxyz'') c of
        Some d \<Rightarrow> d
      | None \<Rightarrow> c)"

definition upper_char :: "char \<Rightarrow> char" where
  "upper_char c =
     (case map_of (zip ''abcdefghijklmnopqrstuvwxyz'' ''ABCDEFGHIJKLMNOPQRSTUVWXYZ'') c of
        Some d \<Rightarrow> d
      | None \<Rightarrow> c)"

definition str_lower :: "string \<Rightarrow> string" where
  "str_lower s = map lower_char s"

definition str_upper :: "string \<Rightarrow> string" where
  "str_upper s = map upper_char s"

definition str_capitalize :: "string \<Rightarrow> string" where
  \<comment> \<open>\<open>str.capitalize\<close>: first character upper-cased, all the others lower-cased\<close>
  "str_capitalize s = (case s of [] \<Rightarrow> [] | c # cs \<Rightarrow> upper_char c # map lower_char cs)"

definition str_strip :: "string \<Rightarrow> string" where
  "str_strip s = rev (dropWhile is_space (rev (dropWhile is_space s)))"

function str_split :: "string \<Rightarrow> string list" where
  \<comment> \<open>\<open>str.split()\<close> with no argument: maximal runs of characters that are not white space\<close>
  "str_split s =
     (let s' = dropWhile is_space s
      in if s' = [] then []
         else takeWhile (\<lambda>c. \<not> is_space c) s' # str_split (dropWhile (\<lambda>c. \<not> is_space c) s'))"
  by pat_completeness auto
termination
proof (relation "measure length")
  show "wf (measure length)" by simp
next
  fix s s' :: string
  assume s': "s' = dropWhile is_space s" and ne: "s' \<noteq> []"
  from ne have "\<not> is_space (hd s')"
    unfolding s' by (metis hd_dropWhile)
  with ne have "length (dropWhile (\<lambda>c. \<not> is_space c) s') < length s'"
    by (cases s') (simp_all add: le_imp_less_Suc length_dropWhile_le)
  also have "length s' \<le> length s"
    unfolding s' by (rule length_dropWhile_le)
  finally show "(dropWhile (\<lambda>c. \<not> is_space c) s', s) \<in> measure length"
    by simp
qed

declare str_split.simps [simp del]

fun str_join :: "string \<Rightarrow> string list \<Rightarrow> string" where
  \<comment> \<open>\<open>sep.join(parts)\<close>\<close>
  "str_join sep [] = []"
| "str_join sep [x] = x"
| "str_join sep (x # y # ys) = x @ sep @ str_join sep (y # ys)"

definition startswith :: "string \<Rightarrow> string \<Rightarrow> bool" where
  \<comment> \<open>\<open>s.startswith(p)\<close>\<close>
  "startswith s p = (take (length p) s = p)"

definition endswith :: "string \<Rightarrow> string \<Rightarrow> bool" where
  \<comment> \<open>\<open>s.endswith(p)\<close>\<close>
  "endswith s p = (length p \<le> length s \<and> drop (length s - length p) s = p)"

definition truthy :: "string option \<Rightarrow> bool" where
  \<comment> \<open>the truth value of an \<open>Optional[str]\<close>: neither \<open>None\<close> nor the empty string\<close>
  "truthy x = (case x of None \<Rightarrow> False | Some s \<Rightarrow> s \<noteq> [])"

definition py_or :: "string option \<Rightarrow> string option \<Rightarrow> string option" where
  \<comment> \<open>\<open>a or b\<close>\<close>
  "py_or a b = (if truthy a then a else b)"

definition or_default :: "string option \<Rightarrow> string \<Rightarrow> string" where
  \<comment> \<open>\<open>a or "literal"\<close>\<close>
  "or_default a d = (if truthy a then the a else d)"


section \<open>Data model\<close>

type_synonym path = "string list"

record Season =
  season_number :: nat
  episode_count :: nat
  season_poster_path :: "path option"

record MediaItem =
  title :: string
  year :: "string option"
  description :: "string option"
  media_type :: string
  poster_path :: "path option"
  nfo_path :: path
  audio_tracks :: "string list"
  subtitle_tracks :: "string list"
  seasons :: "Season list option"


section \<open>Language codes\<close>

definition language_map :: "(string \<times> string) list" where
  "language_map =
     [(''ger'', ''German''), (''deu'', ''German''), (''de'', ''German''),
      (''eng'', ''English''), (''en'', ''English''),
      (''fra'', ''French''), (''fre'', ''French''), (''fr'', ''French''),
      (''spa'', ''Spanish''), (''es'', ''Spanish''),
      (''ita'', ''Italian''), (''it'', ''Italian''),
      (''jpn'', ''Japanese''), (''ja'', ''Japanese''),
      (''rus'', ''Russian''), (''ru'', ''Russian''),
      (''chi'', ''Chinese''), (''zh'', ''Chinese''),
      (''por'', ''Portuguese''), (''pt'', ''Portuguese''),
      (''pol'', ''Polish''), (''pl'', ''Polish''),
      (''tur'', ''Turkish''), (''tr'', ''Turkish''),
      (''ara'', ''Arabic''), (''ar'', ''Arabic'')]"

definition convert_language_code :: "string \<Rightarrow> string" where
  "convert_language_code code =
     (let code_lower = str_lower code
      in case map_of language_map code_lower of
           Some name \<Rightarrow> name
         | None \<Rightarrow> str_capitalize code)"


section \<open>Sorting\<close>

definition ARTICLES :: "string list" where
  "ARTICLES =
     [''der'', ''die'', ''das'', ''ein'', ''eine'',
      ''the'', ''a'', ''an'',
      ''le'', ''la'', ''les'', ''un'', ''une'', ''des'',
      ''el'', ''la'', ''los'', ''las'', ''un'', ''una'', ''unos'', ''unas'']"

definition get_sort_key :: "string \<Rightarrow> string" where
  "get_sort_key t =
     (if t = [] then []
      else
        let title_lower = str_strip (str_lower t);
            words = str_split title_lower
        in case words of
             [] \<Rightarrow> title_lower
           | first_word # rest \<Rightarrow>
               if first_word \<in> set ARTICLES \<and> length words > 1
               then str_join '' '' rest
               else title_lower)"

definition year_key :: "MediaItem \<Rightarrow> string \<times> string" where
  \<comment> \<open>the key of \<open>sort_by_year\<close>: \<open>(x.year or "0000", _get_sort_key(x.title))\<close>\<close>
  "year_key x = (or_default (year x) ''0000'', get_sort_key (title x))"

definition sorted_reverse :: "('a \<Rightarrow> 'k::linorder) \<Rightarrow> 'a list \<Rightarrow> 'a list" where
  \<comment> \<open>\<open>sorted(xs, key=f, reverse=True)\<close>: the list is reversed, sorted stably in
      ascending order and reversed again, so that equal keys keep their input order\<close>
  "sorted_reverse f xs = rev (sort_key f (rev xs))"

definition sort_by_title :: "MediaItem list \<Rightarrow> MediaItem list" where
  "sort_by_title items = sort_key (\<lambda>x. get_sort_key (title x)) items"

definition sort_by_year :: "MediaItem list \<Rightarrow> MediaItem list" where
  "sort_by_year items = sorted_reverse year_key items"

definition sort_by_type :: "MediaItem list \<Rightarrow> MediaItem list" where
  "sort_by_type items = sort_key (\<lambda>x. (media_type x, get_sort_key (title x))) items"


section \<open>Descriptor documents\<close>

text \<open>
  A parsed descriptor is a tree of elements, as \<open>xml.etree.ElementTree\<close> delivers it:
  a tag, the text before the first child (\<open>None\<close> when there is none) and the children
  in document order.
\<close>

datatype element = Element (elem_tag: string) (elem_text: "string option") (elem_children: "element list")

definition find_child :: "element \<Rightarrow> string \<Rightarrow> element option" where
  \<comment> \<open>\<open>e.find(t)\<close> for a plain tag name: the first child with that tag\<close>
  "find_child e t = find (\<lambda>c. elem_tag c = t) (elem_children e)"

definition findall :: "element \<Rightarrow> string \<Rightarrow> element list" where
  \<comment> \<open>\<open>e.findall(t)\<close> for a plain tag name: all children with that tag, in document order\<close>
  "findall e t = filter (\<lambda>c. elem_tag c = t) (elem_children e)"

definition field_text :: "element option \<Rightarrow> string option" where
  \<comment> \<open>the text of \<open>x\<close> when \<open>x is not None and x.text\<close> holds\<close>
  "field_text x =
     (case x of
        None \<Rightarrow> None
      | Some e \<Rightarrow> (case elem_text e of None \<Rightarrow> None | Some s \<Rightarrow> if s = [] then None else Some s))"

definition get_text :: "element \<Rightarrow> string \<Rightarrow> string option" where
  "get_text root t = map_option str_strip (field_text (find_child root t))"

definition audio_parts :: "element \<Rightarrow> string list" where
  \<comment> \<open>the list \<open>parts\<close> built in the body of the loop of \<open>_extract_audio_tracks\<close>\<close>
  "audio_parts audio =
     (let language = find_child audio ''language'';
          codec = find_child audio ''codec'';
          channels = find_child audio ''channels'';
          parts = [];
          parts = (case field_text language of
                     Some t \<Rightarrow> parts @ [convert_language_code (str_strip t)]
                   | None \<Rightarrow> parts);
          parts = (case field_text codec of
                     Some t \<Rightarrow> parts @ [str_upper (str_strip t)]
                   | None \<Rightarrow> parts);
          parts = (case field_text channels of
                     Some t \<Rightarrow> (let ch = str_strip t in if ch \<noteq> [] then parts @ [ch @ ''ch''] else parts)
                   | None \<Rightarrow> parts)
      in parts)"

fun audio_loop :: "element list \<Rightarrow> string list \<Rightarrow> string list" where
  "audio_loop [] tracks = tracks"
| "audio_loop (audio # rest) tracks =
     (let parts = audio_parts audio
      in audio_loop rest (if parts \<noteq> [] then tracks @ [str_join '' '' parts] else tracks))"

definition extract_audio_tracks :: "element \<Rightarrow> string list" where
  "extract_audio_tracks root =
     (case find_child root ''fileinfo'' of
        None \<Rightarrow> []
      | Some fileinfo \<Rightarrow>
          (case find_child fileinfo ''streamdetails'' of
             None \<Rightarrow> []
           | Some streamdetails \<Rightarrow> audio_loop (findall streamdetails ''audio'') []))"

fun subtitle_loop :: "element list \<Rightarrow> string list \<Rightarrow> string list" where
  "subtitle_loop [] tracks = tracks"
| "subtitle_loop (subtitle # rest) tracks =
     (case field_text (find_child subtitle ''language'') of
        Some t \<Rightarrow>
          (let lang = convert_language_code (str_strip t)
           in subtitle_loop rest (if lang \<notin> set tracks then tracks @ [lang] else tracks))
      | None \<Rightarrow> subtitle_loop rest tracks)"

definition extract_subtitle_tracks :: "element \<Rightarrow> string list" where
  "extract_subtitle_tracks root =
     (case find_child root ''fileinfo'' of
        None \<Rightarrow> []
      | Some fileinfo \<Rightarrow>
          (case find_child fileinfo ''streamdetails'' of
             None \<Rightarrow> []
           | Some streamdetails \<Rightarrow> subtitle_loop (findall streamdetails ''subtitle'') []))"


section \<open>The file system\<close>

text \<open>
  The library on disk is a tree. A directory lists its entries in the order in which the
  operating system enumerates them; a file carries the result of parsing it as a
  descriptor, \<open>None\<close> when it is not a well-formed document (an image, a damaged file).
  A path is the list of names leading from the top of the tree to a node.
\<close>

datatype node = File "element option" | Dir "(string \<times> node) list"

datatype error = FileNotFoundError | NotADirectoryError

fun fs_lookup :: "node \<Rightarrow> path \<Rightarrow> node option" where
  "fs_lookup n [] = Some n"
| "fs_lookup (File _) (c # cs) = None"
| "fs_lookup (Dir es) (c # cs) = (case map_of es c of None \<Rightarrow> None | Some n \<Rightarrow> fs_lookup n cs)"

definition path_exists :: "node \<Rightarrow> path \<Rightarrow> bool" where
  \<comment> \<open>\<open>p.exists()\<close>\<close>
  "path_exists fs p = (fs_lookup fs p \<noteq> None)"

definition is_dir :: "node \<Rightarrow> path \<Rightarrow> bool" where
  \<comment> \<open>\<open>p.is_dir()\<close>\<close>
  "is_dir fs p = (case fs_lookup fs p of Some (Dir _) \<Rightarrow> True | _ \<Rightarrow> False)"

definition path_name :: "path \<Rightarrow> string" where
  \<comment> \<open>\<open>p.name\<close>\<close>
  "path_name p = (if p = [] then [] else last p)"

definition parent :: "path \<Rightarrow> path" where
  \<comment> \<open>\<open>p.parent\<close>\<close>
  "parent p = butlast p"

definition iterdir :: "node \<Rightarrow> path \<Rightarrow> error + path list" where
  \<comment> \<open>\<open>list(p.iterdir())\<close>, which raises when \<open>p\<close> is not a directory\<close>
  "iterdir fs p =
     (case fs_lookup fs p of
        None \<Rightarrow> Inl FileNotFoundError
      | Some (File _) \<Rightarrow> Inl NotADirectoryError
      | Some (Dir es) \<Rightarrow> Inr (map (\<lambda>e. p @ [fst e]) es))"

definition glob_suffix :: "node \<Rightarrow> path \<Rightarrow> string \<Rightarrow> path list" where
  \<comment> \<open>\<open>list(p.glob('*' + suf))\<close>: the entries of \<open>p\<close> whose name ends with \<open>suf\<close>;
      nothing, and no exception, when \<open>p\<close> is not a directory\<close>
  "glob_suffix fs p suf =
     (case fs_lookup fs p of
        Some (Dir es) \<Rightarrow> map (\<lambda>e. p @ [fst e]) (filter (\<lambda>e. endswith (fst e) suf) es)
      | _ \<Rightarrow> [])"

fun walk_suffix :: "string \<Rightarrow> path \<Rightarrow> node \<Rightarrow> path list" where
  \<comment> \<open>the recursive walk of \<open>rglob\<close>: the matching entries of a directory, then, for each
      of its subdirectories in turn, the walk of that subdirectory\<close>
  "walk_suffix suf p (File _) = []"
| "walk_suffix suf p (Dir es) =
     map (\<lambda>e. p @ [fst e]) (filter (\<lambda>e. endswith (fst e) suf) es)
     @ concat (map (\<lambda>e. walk_suffix suf (p @ [fst e]) (snd e)) es)"

definition rglob_suffix :: "node \<Rightarrow> path \<Rightarrow> string \<Rightarrow> path list" where
  \<comment> \<open>\<open>list(p.rglob('*' + suf))\<close>; nothing, and no exception, when \<open>p\<close> is not a directory\<close>
  "rglob_suffix fs p suf =
     (case fs_lookup fs p of
        Some (Dir es) \<Rightarrow> walk_suffix suf p (Dir es)
      | _ \<Rightarrow> [])"

definition parse :: "node \<Rightarrow> path \<Rightarrow> element option" where
  \<comment> \<open>\<open>ET.parse(p).getroot()\<close>; \<open>None\<close> stands for every exception it raises\<close>
  "parse fs p = (case fs_lookup fs p of Some (File (Some root)) \<Rightarrow> Some root | _ \<Rightarrow> None)"


section \<open>The scanner\<close>

subsection \<open>Artwork\<close>

definition poster_names :: "string list" where
  "poster_names =
     [''poster.jpg'', ''poster.png'', ''folder.jpg'', ''folder.png'', ''cover.jpg'', ''cover.png'']"

definition image_exts :: "string list" where
  "image_exts = [''.jpg'', ''.jpeg'', ''.png'']"

fun first_existing :: "node \<Rightarrow> path \<Rightarrow> string list \<Rightarrow> path option" where
  \<comment> \<open>\<open>for name in names: poster = directory / name; if poster.exists(): return poster\<close>\<close>
  "first_existing fs directory [] = None"
| "first_existing fs directory (name # names) =
     (let poster = directory @ [name]
      in if path_exists fs poster then Some poster else first_existing fs directory names)"

fun first_image :: "node \<Rightarrow> path \<Rightarrow> string list \<Rightarrow> path option" where
  \<comment> \<open>\<open>for ext in exts: images = list(directory.glob(f'*{ext}')); if images: return images[0]\<close>\<close>
  "first_image fs directory [] = None"
| "first_image fs directory (ext # exts) =
     (case glob_suffix fs directory ext of
        [] \<Rightarrow> first_image fs directory exts
      | img # _ \<Rightarrow> Some img)"

definition find_poster :: "node \<Rightarrow> path \<Rightarrow> path option" where
  "find_poster fs directory =
     (case first_existing fs directory poster_names of
        Some poster \<Rightarrow> Some poster
      | None \<Rightarrow> first_image fs directory image_exts)"

fun str_nat :: "nat \<Rightarrow> string" where
  \<comment> \<open>the decimal digits of a number, as \<open>f'{n}'\<close> prints it\<close>
  "str_nat n =
     (if n < 10 then [''0123456789'' ! n]
      else str_nat (n div 10) @ [''0123456789'' ! (n mod 10)])"

declare str_nat.simps [simp del]

definition fmt_02d :: "nat \<Rightarrow> string" where
  \<comment> \<open>\<open>f'{n:02d}'\<close>: at least two digits, padded with a zero\<close>
  "fmt_02d n = (if n < 10 then ''0'' @ str_nat n else str_nat n)"

definition find_season_poster :: "node \<Rightarrow> path \<Rightarrow> nat \<Rightarrow> path \<Rightarrow> path option" where
  "find_season_poster fs season_dir season_num show_dir =
     (let show_poster_names =
            [''season'' @ fmt_02d season_num @ ''-poster.jpg'',
             ''season'' @ fmt_02d season_num @ ''-poster.png'',
             ''season'' @ str_nat season_num @ ''-poster.jpg'',
             ''season'' @ str_nat season_num @ ''-poster.png'',
             ''season-'' @ fmt_02d season_num @ ''-poster.jpg'',
             ''season-'' @ fmt_02d season_num @ ''-poster.png''];
          season_poster_names =
            [''poster.jpg'', ''poster.png'', ''folder.jpg'', ''folder.png'',
             ''season'' @ fmt_02d season_num @ ''-poster.jpg'',
             ''season'' @ fmt_02d season_num @ ''-poster.png'']
      in case first_existing fs show_dir show_poster_names of
           Some poster \<Rightarrow> Some poster
         | None \<Rightarrow>
             (case first_existing fs season_dir season_poster_names of
                Some poster \<Rightarrow> Some poster
              | None \<Rightarrow> first_image fs season_dir image_exts))"


subsection \<open>Seasons\<close>

definition season_match_at :: "string \<Rightarrow> string option" where
  \<comment> \<open>the pattern \<open>season\s*(\d+)\<close> matched at the start of the string: the digits of the group\<close>
  "season_match_at s =
     (if startswith s ''season''
      then (let digits = takeWhile is_digit (dropWhile is_space (drop 6 s))
            in if digits = [] then None else Some digits)
      else None)"

fun re_search_season :: "string \<Rightarrow> string option" where
  \<comment> \<open>\<open>re.search(r'season\s*(\d+)', s)\<close>: the leftmost position where the pattern matches\<close>
  "re_search_season [] = None"
| "re_search_season (c # cs) =
     (case season_match_at (c # cs) of
        Some digits \<Rightarrow> Some digits
      | None \<Rightarrow> re_search_season cs)"

definition digit_value :: "char \<Rightarrow> nat" where
  "digit_value c = of_char c - 48"

definition int_of_digits :: "string \<Rightarrow> nat" where
  \<comment> \<open>\<open>int(s)\<close> for a string of decimal digits\<close>
  "int_of_digits s = foldl (\<lambda>n c. 10 * n + digit_value c) 0 s"

fun season_loop :: "node \<Rightarrow> path \<Rightarrow> path list \<Rightarrow> Season list \<Rightarrow> Season list" where
  "season_loop fs show_dir [] acc = acc"
| "season_loop fs show_dir (season_dir # rest) acc =
     (let season_name = str_lower (path_name season_dir)
      in case re_search_season season_name of
           None \<Rightarrow> season_loop fs show_dir rest acc
         | Some digits \<Rightarrow>
             (let season_num = int_of_digits digits;
                  episode_nfos = filter (\<lambda>f. \<not> startswith (str_lower (path_name f)) ''season'')
                                        (glob_suffix fs season_dir ''.nfo'');
                  season_poster = find_season_poster fs season_dir season_num show_dir
              in season_loop fs show_dir rest
                   (acc @ [\<lparr>season_number = season_num,
                            episode_count = length episode_nfos,
                            season_poster_path = season_poster\<rparr>])))"

definition collect_season_info :: "node \<Rightarrow> path \<Rightarrow> error + Season list" where
  "collect_season_info fs show_dir =
     (case iterdir fs show_dir of
        Inl e \<Rightarrow> Inl e
      | Inr entries \<Rightarrow>
          (let season_dirs = filter (\<lambda>item. is_dir fs item \<and>
                                             startswith (str_lower (path_name item)) ''season'')
                                    entries
           in Inr (sort_key season_number (season_loop fs show_dir (sort season_dirs) []))))"


subsection \<open>Descriptors\<close>

definition parse_nfo :: "node \<Rightarrow> path \<Rightarrow> MediaItem option" where
  "parse_nfo fs p =
     (case parse fs p of
        None \<Rightarrow> None
      | Some root \<Rightarrow>
          Some \<lparr>title = or_default (get_text root ''title'') ''Unknown'',
                year = get_text root ''year'',
                description = py_or (py_or (get_text root ''plot'') (get_text root ''outline''))
                                    (get_text root ''overview''),
                media_type = elem_tag root,
                poster_path = find_poster fs (parent p),
                nfo_path = p,
                audio_tracks = extract_audio_tracks root,
                subtitle_tracks = extract_subtitle_tracks root,
                seasons = None\<rparr>)"

definition episode_tracks ::
  "node \<Rightarrow> path \<Rightarrow> Season list \<Rightarrow> string list \<times> string list \<Rightarrow> string list \<times> string list" where
  \<comment> \<open>the fallback of \<open>_parse_tvshow_with_seasons\<close>: tracks borrowed from the first
      descriptor in the directory of the first season\<close>
  "episode_tracks fs show_dir ss tracks =
     (case ss of
        [] \<Rightarrow> tracks
      | s # _ \<Rightarrow>
          (if fst tracks = [] \<and> snd tracks = []
           then
             (let season_dir = show_dir @ [''Season '' @ fmt_02d (season_number s)];
                  season_dir = (if \<not> path_exists fs season_dir
                                then show_dir @ [''Season '' @ str_nat (season_number s)]
                                else season_dir)
              in if path_exists fs season_dir
                 then (case glob_suffix fs season_dir ''.nfo'' of
                         [] \<Rightarrow> tracks
                       | ep # _ \<Rightarrow>
                           (case parse fs ep of
                              None \<Rightarrow> tracks
                            | Some ep_root \<Rightarrow>
                                (extract_audio_tracks ep_root, extract_subtitle_tracks ep_root)))
                 else tracks)
           else tracks))"

definition parse_tvshow_with_seasons :: "node \<Rightarrow> path \<Rightarrow> MediaItem option" where
  "parse_tvshow_with_seasons fs p =
     (case parse fs p of
        None \<Rightarrow> None
      | Some root \<Rightarrow>
          (case collect_season_info fs (parent p) of
             Inl e \<Rightarrow> None
           | Inr ss \<Rightarrow>
               (let tracks = episode_tracks fs (parent p) ss
                               (extract_audio_tracks root, extract_subtitle_tracks root)
                in Some \<lparr>title = or_default (get_text root ''title'') ''Unknown'',
                         year = get_text root ''year'',
                         description = py_or (py_or (get_text root ''plot'') (get_text root ''outline''))
                                             (get_text root ''overview''),
                         media_type = ''tvshow'',
                         poster_path = find_poster fs (parent p),
                         nfo_path = p,
                         audio_tracks = fst tracks,
                         subtitle_tracks = snd tracks,
                         seasons = Some ss\<rparr>)))"


subsection \<open>Scanning\<close>

record JellyfinScanner =
  base_path :: path
  items :: "MediaItem list"

record nfo_classes =
  tvshow_nfos :: "path list"
  movie_nfos :: "path list"
  episode_nfos :: "path list"

definition classify :: "node \<Rightarrow> path \<Rightarrow> nfo_classes \<Rightarrow> nfo_classes" where
  \<comment> \<open>the body of the first loop of \<open>scan\<close>\<close>
  "classify fs nfo_file cl =
     (let filename = str_lower (path_name nfo_file)
      in if filename = ''tvshow.nfo'' then cl\<lparr>tvshow_nfos := tvshow_nfos cl @ [nfo_file]\<rparr>
         else if startswith filename ''s'' \<and> endswith filename ''.nfo''
         then cl\<lparr>episode_nfos := episode_nfos cl @ [nfo_file]\<rparr>
         else (case parse fs nfo_file of
                 None \<Rightarrow> cl
               | Some root \<Rightarrow>
                   if elem_tag root = ''movie'' then cl\<lparr>movie_nfos := movie_nfos cl @ [nfo_file]\<rparr>
                   else if elem_tag root = ''episodedetails''
                   then cl\<lparr>episode_nfos := episode_nfos cl @ [nfo_file]\<rparr>
                   else cl))"

fun classify_loop :: "node \<Rightarrow> path list \<Rightarrow> nfo_classes \<Rightarrow> nfo_classes" where
  "classify_loop fs [] cl = cl"
| "classify_loop fs (nfo_file # rest) cl = classify_loop fs rest (classify fs nfo_file cl)"

fun parse_loop :: "(path \<Rightarrow> MediaItem option) \<Rightarrow> path list \<Rightarrow> MediaItem list \<Rightarrow> MediaItem list" where
  \<comment> \<open>\<open>for nfo_file in files: item = parser(nfo_file); if item: self.items.append(item)\<close>\<close>
  "parse_loop parser [] acc = acc"
| "parse_loop parser (nfo_file # rest) acc =
     (case parser nfo_file of
        None \<Rightarrow> parse_loop parser rest acc
      | Some item \<Rightarrow> parse_loop parser rest (acc @ [item]))"

definition scan_files :: "node \<Rightarrow> path list \<Rightarrow> MediaItem list \<Rightarrow> MediaItem list" where
  \<comment> \<open>\<open>scan\<close> after the enumeration of the descriptor files\<close>
  "scan_files fs nfo_files acc =
     (let cl = classify_loop fs nfo_files \<lparr>tvshow_nfos = [], movie_nfos = [], episode_nfos = []\<rparr>;
          acc = parse_loop (parse_nfo fs) (movie_nfos cl) acc;
          acc = parse_loop (parse_tvshow_with_seasons fs) (tvshow_nfos cl) acc
      in acc)"

definition scan :: "node \<Rightarrow> JellyfinScanner \<Rightarrow> MediaItem list \<times> JellyfinScanner" where
  \<comment> \<open>the returned list is \<open>self.items\<close>, which the call has extended\<close>
  "scan fs self =
     (let nfo_files = rglob_suffix fs (base_path self) ''.nfo'';
          new_items = scan_files fs nfo_files (items self)
      in (new_items, self\<lparr>items := new_items\<rparr>))"

definition new_scanner :: "path \<Rightarrow> JellyfinScanner" where
  \<comment> \<open>\<open>JellyfinScanner(base_path)\<close>\<close>
  "new_scanner p = \<lparr>base_path = p, items = []\<rparr>"


section \<open>Vocabulary of the specification\<close>

text \<open>
  The definitions of this section are not translated from the program. They name the
  notions in which the specification speaks, so that the program can be compared with them.
\<close>

subsection \<open>Sort keys\<close>

definition first_word :: "string \<Rightarrow> string" where
  \<comment> \<open>the first white-space delimited word of a trimmed string\<close>
  "first_word t = takeWhile (\<lambda>c. \<not> is_space c) t"

definition remaining_words :: "string \<Rightarrow> string list" where
  \<comment> \<open>the words after the first one\<close>
  "remaining_words t = str_split (dropWhile (\<lambda>c. \<not> is_space c) t)"

subsection \<open>Language codes\<close>

definition language_codes :: "string list" where
  \<comment> \<open>the codes of the table\<close>
  "language_codes = map fst language_map"

subsection \<open>Stream details\<close>

definition stream_elements :: "element \<Rightarrow> string \<Rightarrow> element list" where
  \<comment> \<open>the elements with tag \<open>t\<close> under \<open>fileinfo/streamdetails\<close>, in document order: the
      children with that tag of the first \<open>streamdetails\<close> child of the first \<open>fileinfo\<close>
      child of the root\<close>
  "stream_elements root t =
     (case find_child root ''fileinfo'' of
        None \<Rightarrow> []
      | Some fileinfo \<Rightarrow>
          (case find_child fileinfo ''streamdetails'' of
             None \<Rightarrow> []
           | Some streamdetails \<Rightarrow> findall streamdetails t))"

definition subtitle_language :: "element \<Rightarrow> string option" where
  \<comment> \<open>the normalized language of a \<open>subtitle\<close> element, when it has a \<open>language\<close> field\<close>
  "subtitle_language subtitle =
     map_option (\<lambda>t. convert_language_code (str_strip t)) (field_text (find_child subtitle ''language''))"

definition subtitle_languages :: "element \<Rightarrow> string list" where
  \<comment> \<open>the normalized languages of all subtitle elements, duplicates included\<close>
  "subtitle_languages root = List.map_filter subtitle_language (stream_elements root ''subtitle'')"

fun first_seen :: "'a list \<Rightarrow> 'a list" where
  \<comment> \<open>order-preserving removal of duplicates: every value stays at its first occurrence\<close>
  "first_seen [] = []"
| "first_seen (x # xs) = x # first_seen (filter (\<lambda>y. y \<noteq> x) xs)"

definition elements_named :: "element \<Rightarrow> string \<Rightarrow> element list" where
  \<comment> \<open>the children of an element that carry a given tag, in document order\<close>
  "elements_named e t = filter (\<lambda>c. elem_tag c = t) (elem_children e)"

definition present_text :: "element \<Rightarrow> string \<Rightarrow> string option" where
  \<comment> \<open>the value of the field \<open>t\<close> of an element: the trimmed text of its first child with
      that tag. The field is absent when there is no such child or when nothing is left of
      its text after trimming. The same rule holds for every field.\<close>
  "present_text e t =
     (case elements_named e t of
        [] \<Rightarrow> None
      | c # _ \<Rightarrow>
          (case elem_text c of
             None \<Rightarrow> None
           | Some s \<Rightarrow> if str_strip s = [] then None else Some (str_strip s)))"

definition blank_text :: "element \<Rightarrow> string \<Rightarrow> bool" where
  \<comment> \<open>the field \<open>t\<close> has a text that is not empty and consists of white space only\<close>
  "blank_text e t =
     (case elements_named e t of
        [] \<Rightarrow> False
      | c # _ \<Rightarrow> (case elem_text c of None \<Rightarrow> False | Some s \<Rightarrow> s \<noteq> [] \<and> str_strip s = []))"

definition display_fields :: "element \<Rightarrow> string list" where
  \<comment> \<open>the present fields of an audio element in their fixed order: the normalized language
      name, the codec name in upper case, the channel count followed by \<open>ch\<close>\<close>
  "display_fields audio =
     List.map_filter id
       [map_option convert_language_code (present_text audio ''language''),
        map_option str_upper (present_text audio ''codec''),
        map_option (\<lambda>n. n @ ''ch'') (present_text audio ''channels'')]"

definition all_audio_elements :: "element \<Rightarrow> element list" where
  \<comment> \<open>every \<open>audio\<close> element under \<open>fileinfo/streamdetails\<close>, in document order\<close>
  "all_audio_elements root =
     concat (map (\<lambda>fileinfo.
                    concat (map (\<lambda>streamdetails. elements_named streamdetails ''audio'')
                                (elements_named fileinfo ''streamdetails'')))
                 (elements_named root ''fileinfo''))"

definition first_audio_elements :: "element \<Rightarrow> element list" where
  \<comment> \<open>the \<open>audio\<close> elements of the first \<open>streamdetails\<close> child of the first \<open>fileinfo\<close>
      child of the root\<close>
  "first_audio_elements root =
     concat (map (\<lambda>fileinfo.
                    concat (map (\<lambda>streamdetails. elements_named streamdetails ''audio'')
                                (take 1 (elements_named fileinfo ''streamdetails''))))
                 (take 1 (elements_named root ''fileinfo'')))"

subsection \<open>Seasons\<close>

definition parse_season_number :: "string \<Rightarrow> nat option" where
  \<comment> \<open>the season number that a directory name yields, if any\<close>
  "parse_season_number name = map_option int_of_digits (re_search_season (str_lower name))"

definition season_directories :: "node \<Rightarrow> path \<Rightarrow> path list" where
  \<comment> \<open>the subdirectories of a show directory whose name starts with \<open>season\<close>, in any case,
      in the order of the directory\<close>
  "season_directories fs show_dir =
     (case iterdir fs show_dir of
        Inl e \<Rightarrow> []
      | Inr entries \<Rightarrow>
          filter (\<lambda>item. is_dir fs item \<and> startswith (str_lower (path_name item)) ''season'') entries)"

definition season_numbers :: "node \<Rightarrow> path \<Rightarrow> nat list" where
  \<comment> \<open>one number for each season directory that yields one\<close>
  "season_numbers fs show_dir =
     List.map_filter (\<lambda>d. parse_season_number (path_name d)) (season_directories fs show_dir)"

subsection \<open>Classes of descriptor files\<close>

definition is_tvshow_name :: "path \<Rightarrow> bool" where
  \<comment> \<open>the file is named \<open>tvshow.nfo\<close>, in any case\<close>
  "is_tvshow_name f = (str_lower (path_name f) = ''tvshow.nfo'')"

definition is_episode_name :: "path \<Rightarrow> bool" where
  \<comment> \<open>the episode pattern of the scanner: the lower-cased name starts with \<open>s\<close>\<close>
  "is_episode_name f =
     (startswith (str_lower (path_name f)) ''s'' \<and> endswith (str_lower (path_name f)) ''.nfo'')"

definition root_tag :: "node \<Rightarrow> path \<Rightarrow> string option" where
  \<comment> \<open>the tag of the root element of a file, when the file can be parsed\<close>
  "root_tag fs f = map_option elem_tag (parse fs f)"

definition is_movie_nfo :: "node \<Rightarrow> path \<Rightarrow> bool" where
  \<comment> \<open>a movie descriptor: neither of the two names above, and a \<open>movie\<close> root\<close>
  "is_movie_nfo fs f = (\<not> is_tvshow_name f \<and> \<not> is_episode_name f \<and> root_tag fs f = Some ''movie'')"

definition is_show_nfo :: "node \<Rightarrow> path \<Rightarrow> bool" where
  \<comment> \<open>a show descriptor: a file named \<open>tvshow.nfo\<close> that can be parsed\<close>
  "is_show_nfo fs f = (is_tvshow_name f \<and> parse fs f \<noteq> None)"

subsection \<open>Example libraries\<close>

definition artwork_fs :: node where
  "artwork_fs =
     Dir [(''Show'', Dir [(''banner.jpg'', File None), (''folder.jpg'', File None),
                          (''poster.jpg'', File None), (''tvshow.nfo'', File None)]),
          (''Film'', Dir [(''banner.jpg'', File None), (''folder.jpg'', File None)]),
          (''Other'', Dir [(''fanart.png'', File None), (''b.jpeg'', File None), (''a.jpeg'', File None)]),
          (''Bare'', Dir [(''movie.nfo'', File None)])]"

definition dup_season_fs :: node where
  "dup_season_fs =
     Dir [(''Show'',
           Dir [(''tvshow.nfo'', File (Some (Element ''tvshow'' None [Element ''title'' (Some ''Show'') []]))),
                (''Season 1'', Dir [(''S01E01.nfo'', File (Some (Element ''episodedetails'' None [])))]),
                (''Season 01'', Dir [])])]"

definition stray_show_fs :: node where
  "stray_show_fs =
     Dir [(''Lost'',
           Dir [(''lost.nfo'', File (Some (Element ''tvshow'' None [Element ''title'' (Some ''Lost'') []]))),
                (''Season 1'', Dir [(''S01E01.nfo'', File (Some (Element ''episodedetails'' None [])))])])]"

definition show_first_fs :: node where
  "show_first_fs =
     Dir [(''Lost'',
           Dir [(''tvshow.nfo'', File (Some (Element ''tvshow'' None [Element ''title'' (Some ''Lost'') []])))]),
          (''Heat'',
           Dir [(''heat.nfo'', File (Some (Element ''movie'' None [Element ''title'' (Some ''Heat'') []])))])]"

definition empty_root_fs :: node where
  "empty_root_fs = Dir [(''empty'', Dir [])]"

definition example_item :: "string \<Rightarrow> string option \<Rightarrow> MediaItem" where
  "example_item t y =
     \<lparr>title = t, year = y, description = None, media_type = ''movie'', poster_path = None,
      nfo_path = [t, ''movie.nfo''], audio_tracks = [], subtitle_tracks = [], seasons = None\<rparr>"


definition audio_element :: "(string \<times> string) list \<Rightarrow> element" where
  \<comment> \<open>an \<open>audio\<close> element with the given fields, as pairs of a tag and a text\<close>
  "audio_element fs = Element ''audio'' None (map (\<lambda>(t, s). Element t (Some s) []) fs)"

definition descriptor_with :: "element list list \<Rightarrow> element" where
  \<comment> \<open>a movie descriptor with one \<open>fileinfo/streamdetails\<close> block for each list of elements\<close>
  "descriptor_with blocks =
     Element ''movie'' None
       (Element ''title'' (Some ''Heat'') []
        # map (\<lambda>audios. Element ''fileinfo'' None [Element ''streamdetails'' None audios]) blocks)"

definition audio_descriptor :: element where
  "audio_descriptor =
     descriptor_with
       [[audio_element [(''language'', ''eng''), (''codec'', ''ac3''), (''channels'', ''6'')],
         audio_element [],
         audio_element [(''channels'', ''  ''), (''codec'', '' dts ''), (''language'', ''DE'')],
         audio_element [(''language'', ''eng''), (''codec'', ''ac3''), (''channels'', ''6'')]]]"


section \<open>Facts about strings\<close>

lemma lower_upper_char: "lower_char (upper_char c) = lower_char c"
  unfolding lower_char_def upper_char_def by simp

lemma lower_lower_char: "lower_char (lower_char c) = lower_char c"
  unfolding lower_char_def by simp

lemma str_lower_upper: "str_lower (str_upper s) = str_lower s"
  by (simp add: str_lower_def str_upper_def lower_upper_char)

lemma str_lower_lower: "str_lower (str_lower s) = str_lower s"
  by (simp add: str_lower_def lower_lower_char)

lemma rstrip_Cons:
  "rev (dropWhile P (rev (x # xs))) =
     (if \<forall>y\<in>set (x # xs). P y then [] else x # rev (dropWhile P (rev xs)))"
  by (auto simp: dropWhile_append)

lemma dropWhile_str_strip: "dropWhile is_space (str_strip s) = str_strip s"
proof -
  define u where "u = dropWhile is_space s"
  have u: "u = [] \<or> \<not> is_space (hd u)"
    unfolding u_def by (metis hd_dropWhile)
  have "dropWhile is_space (rev (dropWhile is_space (rev u))) = rev (dropWhile is_space (rev u))"
  proof (cases u)
    case Nil
    then show ?thesis by simp
  next
    case (Cons x xs)
    with u have "\<not> is_space x" by simp
    then show ?thesis
      unfolding Cons rstrip_Cons by auto
  qed
  then show ?thesis
    by (simp add: str_strip_def u_def)
qed

lemma str_split_stripped:
  assumes "dropWhile is_space t = t"
  shows "str_split t = (if t = [] then [] else first_word t # remaining_words t)"
  using assms by (subst str_split.simps) (simp add: first_word_def remaining_words_def Let_def)

lemma str_strip_Nil [simp]: "str_strip [] = []"
  by (simp add: str_strip_def)

lemma get_sort_key_eq:
  "get_sort_key t =
     (let n = str_strip (str_lower t)
      in if first_word n \<in> set ARTICLES \<and> remaining_words n \<noteq> []
         then str_join '' '' (remaining_words n) else n)"
proof (cases "t = []")
  case True
  then show ?thesis
    by (simp add: get_sort_key_def str_lower_def first_word_def ARTICLES_def)
next
  case False
  let ?n = "str_strip (str_lower t)"
  have s: "str_split ?n = (if ?n = [] then [] else first_word ?n # remaining_words ?n)"
    by (rule str_split_stripped) (rule dropWhile_str_strip)
  show ?thesis
  proof (cases "?n = []")
    case True
    then show ?thesis using False s
      by (simp add: get_sort_key_def first_word_def ARTICLES_def)
  next
    case n: False
    then show ?thesis using False s
      by (auto simp add: get_sort_key_def Let_def)
  qed
qed


section \<open>Sort keys\<close>

text \<open>
  Claim C6. For every title whose first white-space delimited word, after lower-casing and
  trimming, is one of the articles and which has more than one word, the sort key is the
  remaining words joined by single spaces. For every other title, a single word that is an
  article included, the sort key is the whole lower-cased and trimmed title.
\<close>

theorem get_sort_key_spec:
  "(first_word (str_strip (str_lower t)) \<in> set ARTICLES \<and> 1 < length (str_split (str_strip (str_lower t)))
      \<longrightarrow> get_sort_key t = str_join '' '' (remaining_words (str_strip (str_lower t))))
   \<and> (\<not> (first_word (str_strip (str_lower t)) \<in> set ARTICLES \<and> 1 < length (str_split (str_strip (str_lower t))))
      \<longrightarrow> get_sort_key t = str_strip (str_lower t))"
proof -
  let ?n = "str_strip (str_lower t)"
  have s: "str_split ?n = (if ?n = [] then [] else first_word ?n # remaining_words ?n)"
    by (rule str_split_stripped) (rule dropWhile_str_strip)
  have r: "?n = [] \<Longrightarrow> remaining_words ?n = []"
    by (simp add: remaining_words_def str_split.simps)
  have "1 < length (str_split ?n) \<longleftrightarrow> remaining_words ?n \<noteq> []"
    using s r by (cases "?n = []") auto
  then show ?thesis
    by (simp add: get_sort_key_eq Let_def)
qed

theorem get_sort_key_spec_witness:
  "get_sort_key ''The  Matrix Reloaded '' = ''matrix reloaded'' \<and> get_sort_key ''The'' = ''the''"
proof -
  have a: "first_word (str_strip (str_lower ''The  Matrix Reloaded '')) \<in> set ARTICLES
           \<and> 1 < length (str_split (str_strip (str_lower ''The  Matrix Reloaded '')))"
    by code_simp
  have b: "\<not> (first_word (str_strip (str_lower ''The'')) \<in> set ARTICLES
              \<and> 1 < length (str_split (str_strip (str_lower ''The''))))"
    by code_simp
  have "get_sort_key ''The  Matrix Reloaded '' =
          str_join '' '' (remaining_words (str_strip (str_lower ''The  Matrix Reloaded '')))"
    using get_sort_key_spec [of "''The  Matrix Reloaded ''"] a by blast
  also have "\<dots> = ''matrix reloaded''"
    by code_simp
  finally have 1: "get_sort_key ''The  Matrix Reloaded '' = ''matrix reloaded''" .
  have "get_sort_key ''The'' = str_strip (str_lower ''The'')"
    using get_sort_key_spec [of "''The''"] b by blast
  also have "\<dots> = ''the''"
    by code_simp
  finally show ?thesis using 1 by simp
qed


section \<open>Language codes\<close>

lemma language_codes_lower: "list_all (\<lambda>k. str_lower k = k) language_codes"
  by code_simp

lemma convert_language_code_known:
  assumes "str_lower c \<in> set language_codes"
  shows "convert_language_code (str_upper c) = convert_language_code c"
    and "convert_language_code (str_lower c) = convert_language_code c"
  using assms
  by (auto simp: convert_language_code_def str_lower_upper str_lower_lower language_codes_def
      split: option.splits dest: weak_map_of_SomeI simp: map_of_eq_None_iff)

text \<open>
  Claim C7. The conversion of a language code has a result for every input. On every code of
  its table it does not depend on the case of the letters: the code, its upper-cased and its
  lower-cased form are converted to the same name (and so is every spelling whose lower-cased
  form is in the table). A code whose lower-cased form is not in the table is returned with
  its first letter in upper case and all the others in lower case.
\<close>

theorem convert_language_code_spec:
  "(\<forall>code\<in>set language_codes.
       convert_language_code code = convert_language_code (str_upper code)
     \<and> convert_language_code (str_upper code) = convert_language_code (str_lower code))
   \<and> (str_lower c \<in> set language_codes \<longrightarrow>
         map_of language_map (str_lower c) = Some (convert_language_code c)
       \<and> convert_language_code (str_upper c) = convert_language_code c
       \<and> convert_language_code (str_lower c) = convert_language_code c)
   \<and> (str_lower c \<notin> set language_codes \<longrightarrow>
         convert_language_code c = (case c of [] \<Rightarrow> [] | x # xs \<Rightarrow> upper_char x # str_lower xs))"
proof (intro conjI ballI impI)
  fix code
  assume "code \<in> set language_codes"
  with language_codes_lower have "str_lower code = code"
    by (simp add: list_all_iff)
  with \<open>code \<in> set language_codes\<close> have k: "str_lower code \<in> set language_codes"
    by simp
  show "convert_language_code code = convert_language_code (str_upper code)"
    using convert_language_code_known(1) [OF k] by simp
  show "convert_language_code (str_upper code) = convert_language_code (str_lower code)"
    using convert_language_code_known [OF k] by simp
next
  assume k: "str_lower c \<in> set language_codes"
  then show "map_of language_map (str_lower c) = Some (convert_language_code c)"
    by (auto simp: convert_language_code_def language_codes_def map_of_eq_None_iff split: option.splits)
  show "convert_language_code (str_upper c) = convert_language_code c"
    by (rule convert_language_code_known(1) [OF k])
  show "convert_language_code (str_lower c) = convert_language_code c"
    by (rule convert_language_code_known(2) [OF k])
next
  assume "str_lower c \<notin> set language_codes"
  then have "map_of language_map (str_lower c) = None"
    by (simp add: language_codes_def map_of_eq_None_iff)
  then show "convert_language_code c = (case c of [] \<Rightarrow> [] | x # xs \<Rightarrow> upper_char x # str_lower xs)"
    by (simp add: convert_language_code_def str_capitalize_def str_lower_def split: list.splits)
qed

theorem convert_language_code_spec_witness:
  "''ger'' \<in> set language_codes
   \<and> convert_language_code ''ger'' = ''German'' \<and> convert_language_code ''GER'' = ''German''
   \<and> convert_language_code ''Ger'' = ''German''
   \<and> str_lower ''kLINGON'' \<notin> set language_codes \<and> convert_language_code ''kLINGON'' = ''Klingon''"
proof -
  have a: "''ger'' \<in> set language_codes" by code_simp
  have b: "str_lower ''Ger'' \<in> set language_codes" by code_simp
  have c: "str_lower ''kLINGON'' \<notin> set language_codes" by code_simp
  have u: "str_upper ''ger'' = ''GER''" "str_lower ''Ger'' = ''ger''" by code_simp+
  have g: "map_of language_map ''ger'' = Some ''German''" by code_simp
  from convert_language_code_spec [of "''Ger''"] b
  have 1: "map_of language_map (str_lower ''Ger'') = Some (convert_language_code ''Ger'')"
    by blast
  then have 2: "convert_language_code ''Ger'' = ''German''"
    using g u by simp
  from convert_language_code_spec [of "''ger''"] a
  have 3: "convert_language_code ''ger'' = convert_language_code (str_upper ''ger'')"
    "convert_language_code (str_upper ''ger'') = convert_language_code (str_lower ''ger'')"
    by blast+
  from convert_language_code_spec [of "''Ger''"] b
  have 4: "convert_language_code (str_lower ''Ger'') = convert_language_code ''Ger''"
    by blast
  from convert_language_code_spec [of "''kLINGON''"] c
  have "convert_language_code ''kLINGON'' =
          (case ''kLINGON'' of [] \<Rightarrow> [] | x # xs \<Rightarrow> upper_char x # str_lower xs)"
    by blast
  also have "\<dots> = ''Klingon''" by code_simp
  finally show ?thesis
    using a c 2 3 4 u by simp
qed


section \<open>Audio and subtitle tracks\<close>

lemma set_first_seen: "set (first_seen xs) = set xs"
  by (induction xs rule: first_seen.induct) auto

lemma distinct_first_seen: "distinct (first_seen xs)"
  by (induction xs rule: first_seen.induct) (auto simp: set_first_seen)

lemma subtitle_loop_first_seen:
  "subtitle_loop els acc =
     acc @ first_seen (filter (\<lambda>n. n \<notin> set acc) (List.map_filter subtitle_language els))"
proof (induction els arbitrary: acc)
  case Nil
  then show ?case by (simp add: List.map_filter_simps)
next
  case (Cons s els)
  show ?case
  proof (cases "field_text (find_child s ''language'')")
    case None
    then show ?thesis
      by (simp add: Cons.IH List.map_filter_simps subtitle_language_def)
  next
    case (Some t)
    let ?lang = "convert_language_code (str_strip t)"
    have f: "(\<lambda>n. n \<noteq> ?lang \<and> n \<notin> set acc) = (\<lambda>n. n \<notin> set acc \<and> n \<noteq> ?lang)"
      by auto
    show ?thesis
      using Some by (simp add: Cons.IH List.map_filter_simps subtitle_language_def Let_def f)
  qed
qed

text \<open>
  Claim C8. The subtitle tracks extracted from a descriptor contain no name twice, whatever
  the duplicates among the language tags of the source, and they are the normalized names of
  the source in the order of their first occurrences.
\<close>

theorem extract_subtitle_tracks_spec:
  "distinct (extract_subtitle_tracks root)
   \<and> extract_subtitle_tracks root = first_seen (subtitle_languages root)
   \<and> set (extract_subtitle_tracks root) = set (subtitle_languages root)"
proof -
  have "extract_subtitle_tracks root = first_seen (subtitle_languages root)"
    by (simp add: extract_subtitle_tracks_def subtitle_languages_def stream_elements_def
        subtitle_loop_first_seen split: option.splits)
  then show ?thesis
    by (simp add: distinct_first_seen set_first_seen)
qed

lemma find_filter_hd:
  "find P xs = (case filter P xs of [] \<Rightarrow> None | x # _ \<Rightarrow> Some x)"
  by (induction xs) simp_all

lemma find_child_elements_named:
  "find_child e t = (case elements_named e t of [] \<Rightarrow> None | c # _ \<Rightarrow> Some c)"
  by (simp add: find_child_def elements_named_def find_filter_hd)

lemma findall_elements_named: "findall e t = elements_named e t"
  by (simp add: findall_def elements_named_def)

lemma present_field:
  assumes "\<not> blank_text e t"
  shows "(case field_text (find_child e t) of Some s \<Rightarrow> [f (str_strip s)] | None \<Rightarrow> [])
           = (case present_text e t of Some s \<Rightarrow> [f s] | None \<Rightarrow> [])"
  using assms
  by (auto simp: field_text_def find_child_elements_named present_text_def blank_text_def
      split: list.splits option.splits)

lemma present_channels:
  "(case field_text (find_child e t) of
      Some s \<Rightarrow> if str_strip s \<noteq> [] then [f (str_strip s)] else []
    | None \<Rightarrow> [])
     = (case present_text e t of Some s \<Rightarrow> [f s] | None \<Rightarrow> [])"
  by (simp add: field_text_def find_child_elements_named present_text_def
      split: list.splits option.splits)

lemma audio_parts_append:
  "audio_parts audio =
     (case field_text (find_child audio ''language'') of
        Some s \<Rightarrow> [convert_language_code (str_strip s)] | None \<Rightarrow> [])
     @ (case field_text (find_child audio ''codec'') of
          Some s \<Rightarrow> [str_upper (str_strip s)] | None \<Rightarrow> [])
     @ (case field_text (find_child audio ''channels'') of
          Some s \<Rightarrow> if str_strip s \<noteq> [] then [str_strip s @ ''ch''] else []
        | None \<Rightarrow> [])"
  by (simp add: audio_parts_def Let_def split: option.splits)

lemma display_fields_append:
  "display_fields audio =
     (case present_text audio ''language'' of Some s \<Rightarrow> [convert_language_code s] | None \<Rightarrow> [])
     @ (case present_text audio ''codec'' of Some s \<Rightarrow> [str_upper s] | None \<Rightarrow> [])
     @ (case present_text audio ''channels'' of Some s \<Rightarrow> [s @ ''ch''] | None \<Rightarrow> [])"
  by (simp add: display_fields_def List.map_filter_simps split: option.splits)

lemma audio_parts_display_fields:
  assumes "\<not> blank_text audio ''language''" and "\<not> blank_text audio ''codec''"
  shows "audio_parts audio = display_fields audio"
proof -
  have c: "(case field_text (find_child audio ''channels'') of
              Some s \<Rightarrow> if str_strip s \<noteq> [] then [str_strip s @ ''ch''] else []
            | None \<Rightarrow> [])
             = (case present_text audio ''channels'' of Some s \<Rightarrow> [s @ ''ch''] | None \<Rightarrow> [])"
    using present_channels [where e = audio and t = "''channels''" and f = "\<lambda>n. n @ ''ch''"] by simp
  show ?thesis
    unfolding audio_parts_append display_fields_append
      present_field [OF assms(1)] present_field [OF assms(2)] c ..
qed

lemma audio_loop_parts:
  "audio_loop els acc =
     acc @ map (\<lambda>a. str_join '' '' (audio_parts a)) (filter (\<lambda>a. audio_parts a \<noteq> []) els)"
  by (induction els arbitrary: acc) (simp_all add: Let_def)

lemma extract_audio_tracks_loop:
  "extract_audio_tracks root = audio_loop (first_audio_elements root) []"
  by (simp add: extract_audio_tracks_def first_audio_elements_def find_child_elements_named
      findall_elements_named split: list.splits)

lemma first_audio_elements_all:
  assumes "length (elements_named root ''fileinfo'') \<le> 1"
    and "\<forall>fileinfo\<in>set (elements_named root ''fileinfo''). length (elements_named fileinfo ''streamdetails'') \<le> 1"
  shows "first_audio_elements root = all_audio_elements root"
  using assms by (simp add: first_audio_elements_def all_audio_elements_def cong: map_cong)

text \<open>
  Claim C9, as amended. Every \<open>audio\<close> element under the first \<open>streamdetails\<close> child of
  the first \<open>fileinfo\<close> child of the root yields one display string: its present fields
  among the normalized language name, the upper-cased codec name and the channel count
  followed by \<open>ch\<close>, in this order, joined by single spaces. A field is present when its
  text is not empty after trimming. An element with no present field yields no entry. The
  entries stand in the order of the source, and equal entries are all kept. This holds for
  the descriptors in which no language and no codec of those elements has a text of white
  space only.
\<close>

theorem extract_audio_tracks_first_block:
  assumes "\<forall>audio\<in>set (first_audio_elements root).
             \<not> blank_text audio ''language'' \<and> \<not> blank_text audio ''codec''"
  shows "extract_audio_tracks root =
           map (\<lambda>audio. str_join '' '' (display_fields audio))
               (filter (\<lambda>audio. display_fields audio \<noteq> []) (first_audio_elements root))"
proof -
  have p: "audio_parts a = display_fields a" if "a \<in> set (first_audio_elements root)" for a
    using assms that by (simp add: audio_parts_display_fields)
  have "extract_audio_tracks root =
          map (\<lambda>a. str_join '' '' (audio_parts a))
              (filter (\<lambda>a. audio_parts a \<noteq> []) (first_audio_elements root))"
    by (simp add: extract_audio_tracks_loop audio_loop_parts)
  also have "filter (\<lambda>a. audio_parts a \<noteq> []) (first_audio_elements root)
               = filter (\<lambda>a. display_fields a \<noteq> []) (first_audio_elements root)"
    by (rule filter_cong [OF refl]) (simp add: p)
  also have "map (\<lambda>a. str_join '' '' (audio_parts a))
                 (filter (\<lambda>a. display_fields a \<noteq> []) (first_audio_elements root))
               = map (\<lambda>a. str_join '' '' (display_fields a))
                     (filter (\<lambda>a. display_fields a \<noteq> []) (first_audio_elements root))"
    by (rule map_cong [OF refl]) (simp add: p)
  finally show ?thesis .
qed

text \<open>
  Claim C9 as stated fails. A codec of white space only yields an entry although the element
  has no present field, and the entry is empty; with a language and a channel count beside
  it, it leaves two spaces between them. A channel count of white space only is omitted, so
  that such a text does not count as a present field either. An \<open>audio\<close> element under a
  second \<open>fileinfo\<close> block yields no entry.
\<close>

theorem extract_audio_tracks_blank_fields:
  "display_fields (audio_element [(''codec'', '' '')]) = []
   \<and> extract_audio_tracks (descriptor_with [[audio_element [(''codec'', '' '')]]]) = [[]]
   \<and> extract_audio_tracks
         (descriptor_with [[audio_element [(''language'', ''eng''), (''codec'', '' ''), (''channels'', ''6'')]]])
       = [''English  6ch'']
   \<and> extract_audio_tracks
         (descriptor_with [[audio_element [(''language'', ''eng''), (''channels'', '' '')]]])
       = [''English'']
   \<and> all_audio_elements (descriptor_with [[], [audio_element [(''language'', ''eng'')]]])
       = [audio_element [(''language'', ''eng'')]]
   \<and> extract_audio_tracks (descriptor_with [[], [audio_element [(''language'', ''eng'')]]]) = []"
  by code_simp

text \<open>
  The amended claim C9 on a descriptor with four \<open>audio\<close> elements: one without fields,
  one with its fields in another order and a blank channel count, and two equal ones.
\<close>

theorem extract_audio_tracks_first_block_witness:
  "extract_audio_tracks audio_descriptor = [''English AC3 6ch'', ''German DTS'', ''English AC3 6ch'']"
proof -
  have h: "\<forall>audio\<in>set (first_audio_elements audio_descriptor).
             \<not> blank_text audio ''language'' \<and> \<not> blank_text audio ''codec''"
    by code_simp
  have "extract_audio_tracks audio_descriptor =
          map (\<lambda>audio. str_join '' '' (display_fields audio))
              (filter (\<lambda>audio. display_fields audio \<noteq> []) (first_audio_elements audio_descriptor))"
    by (rule extract_audio_tracks_first_block [OF h])
  also have "\<dots> = [''English AC3 6ch'', ''German DTS'', ''English AC3 6ch'']"
    by code_simp
  finally show ?thesis .
qed


section \<open>Artwork\<close>

lemma first_existing_find:
  "first_existing fs d names = map_option (\<lambda>n. d @ [n]) (find (\<lambda>n. path_exists fs (d @ [n])) names)"
  by (induction names) (simp_all add: Let_def)

lemma first_image_find:
  "first_image fs d exts =
     map_option (\<lambda>e. hd (glob_suffix fs d e)) (find (\<lambda>e. glob_suffix fs d e \<noteq> []) exts)"
  by (induction exts) (simp_all split: list.splits)

lemma fs_lookup_append:
  "fs_lookup n (p @ q) = (case fs_lookup n p of None \<Rightarrow> None | Some m \<Rightarrow> fs_lookup m q)"
  by (induction n p rule: fs_lookup.induct) (simp_all split: option.splits)

lemma missing_child: "\<not> path_exists fs d \<Longrightarrow> \<not> path_exists fs (d @ q)"
  by (simp add: path_exists_def fs_lookup_append)

lemma missing_glob: "\<not> path_exists fs d \<Longrightarrow> glob_suffix fs d e = []"
  by (simp add: path_exists_def glob_suffix_def)

lemma find_first_index:
  assumes "i < length xs" "P (xs ! i)" "\<forall>j<i. \<not> P (xs ! j)"
  shows "find P xs = Some (xs ! i)"
  using assms by (auto simp: find_Some_iff)

text \<open>
  Claim C10. The poster of a directory is the first existing path among \<open>poster.jpg\<close>,
  \<open>poster.png\<close>, \<open>folder.jpg\<close>, \<open>folder.png\<close>, \<open>cover.jpg\<close>, \<open>cover.png\<close>, in this order, so
  that \<open>poster.jpg\<close> wins over \<open>folder.jpg\<close>, which wins over any other image. When none
  exists, it is the first entry of the directory ending in \<open>.jpg\<close>, else the first ending in
  \<open>.jpeg\<close>, else the first ending in \<open>.png\<close>. When nothing matches there is no poster, and
  a directory that does not exist has no poster either: no error is raised.
\<close>

theorem find_poster_spec:
  "(i < length poster_names \<and> path_exists fs (d @ [poster_names ! i])
      \<and> (\<forall>j<i. \<not> path_exists fs (d @ [poster_names ! j]))
      \<longrightarrow> find_poster fs d = Some (d @ [poster_names ! i]))
   \<and> ((\<forall>n\<in>set poster_names. \<not> path_exists fs (d @ [n]))
        \<and> k < length image_exts \<and> glob_suffix fs d (image_exts ! k) \<noteq> []
        \<and> (\<forall>j<k. glob_suffix fs d (image_exts ! j) = [])
      \<longrightarrow> find_poster fs d = Some (hd (glob_suffix fs d (image_exts ! k))))
   \<and> ((\<forall>n\<in>set poster_names. \<not> path_exists fs (d @ [n]))
        \<and> (\<forall>e\<in>set image_exts. glob_suffix fs d e = [])
      \<longrightarrow> find_poster fs d = None)
   \<and> (\<not> path_exists fs d \<longrightarrow> find_poster fs d = None)
   \<and> (path_exists fs (d @ [''poster.jpg'']) \<longrightarrow> find_poster fs d = Some (d @ [''poster.jpg'']))
   \<and> (\<not> path_exists fs (d @ [''poster.jpg'']) \<and> \<not> path_exists fs (d @ [''poster.png''])
        \<and> path_exists fs (d @ [''folder.jpg''])
      \<longrightarrow> find_poster fs d = Some (d @ [''folder.jpg'']))"
proof (intro conjI impI)
  assume a: "i < length poster_names \<and> path_exists fs (d @ [poster_names ! i])
      \<and> (\<forall>j<i. \<not> path_exists fs (d @ [poster_names ! j]))"
  then have "find (\<lambda>n. path_exists fs (d @ [n])) poster_names = Some (poster_names ! i)"
    by (intro find_first_index) auto
  then show "find_poster fs d = Some (d @ [poster_names ! i])"
    by (simp add: find_poster_def first_existing_find)
next
  assume a: "(\<forall>n\<in>set poster_names. \<not> path_exists fs (d @ [n]))
        \<and> k < length image_exts \<and> glob_suffix fs d (image_exts ! k) \<noteq> []
        \<and> (\<forall>j<k. glob_suffix fs d (image_exts ! j) = [])"
  then have 1: "find (\<lambda>n. path_exists fs (d @ [n])) poster_names = None"
    by (simp add: find_None_iff)
  from a have "find (\<lambda>e. glob_suffix fs d e \<noteq> []) image_exts = Some (image_exts ! k)"
    by (intro find_first_index) auto
  with 1 show "find_poster fs d = Some (hd (glob_suffix fs d (image_exts ! k)))"
    by (simp add: find_poster_def first_existing_find first_image_find)
next
  assume a: "(\<forall>n\<in>set poster_names. \<not> path_exists fs (d @ [n]))
        \<and> (\<forall>e\<in>set image_exts. glob_suffix fs d e = [])"
  then have "find (\<lambda>n. path_exists fs (d @ [n])) poster_names = None"
    and "find (\<lambda>e. glob_suffix fs d e \<noteq> []) image_exts = None"
    by (simp_all add: find_None_iff)
  then show "find_poster fs d = None"
    by (simp add: find_poster_def first_existing_find first_image_find)
next
  assume a: "\<not> path_exists fs d"
  then have "find (\<lambda>n. path_exists fs (d @ [n])) poster_names = None"
    and "find (\<lambda>e. glob_suffix fs d e \<noteq> []) image_exts = None"
    by (simp_all add: find_None_iff missing_child missing_glob)
  then show "find_poster fs d = None"
    by (simp add: find_poster_def first_existing_find first_image_find)
next
  assume "path_exists fs (d @ [''poster.jpg''])"
  then show "find_poster fs d = Some (d @ [''poster.jpg''])"
    by (simp add: find_poster_def poster_names_def)
next
  assume "\<not> path_exists fs (d @ [''poster.jpg'']) \<and> \<not> path_exists fs (d @ [''poster.png''])
        \<and> path_exists fs (d @ [''folder.jpg''])"
  then show "find_poster fs d = Some (d @ [''folder.jpg''])"
    by (simp add: find_poster_def poster_names_def)
qed

theorem find_poster_spec_witness:
  "find_poster artwork_fs [''Show''] = Some [''Show'', ''poster.jpg'']
   \<and> find_poster artwork_fs [''Film''] = Some [''Film'', ''folder.jpg'']
   \<and> find_poster artwork_fs [''Other''] = Some [''Other'', ''b.jpeg'']
   \<and> find_poster artwork_fs [''Bare''] = None
   \<and> find_poster artwork_fs [''Missing''] = None"
proof -
  have 1: "path_exists artwork_fs ([''Show''] @ [''poster.jpg''])"
    by code_simp
  have 2: "\<not> path_exists artwork_fs ([''Film''] @ [''poster.jpg''])
           \<and> \<not> path_exists artwork_fs ([''Film''] @ [''poster.png''])
           \<and> path_exists artwork_fs ([''Film''] @ [''folder.jpg''])"
    by code_simp
  have 3: "(\<forall>n\<in>set poster_names. \<not> path_exists artwork_fs ([''Other''] @ [n]))
           \<and> 1 < length image_exts \<and> glob_suffix artwork_fs [''Other''] (image_exts ! 1) \<noteq> []
           \<and> (\<forall>j<1. glob_suffix artwork_fs [''Other''] (image_exts ! j) = [])"
    by code_simp
  have g3: "hd (glob_suffix artwork_fs [''Other''] (image_exts ! 1)) = [''Other'', ''b.jpeg'']"
    by code_simp
  have 4: "(\<forall>n\<in>set poster_names. \<not> path_exists artwork_fs ([''Bare''] @ [n]))
           \<and> (\<forall>e\<in>set image_exts. glob_suffix artwork_fs [''Bare''] e = [])"
    by code_simp
  have 5: "\<not> path_exists artwork_fs [''Missing'']"
    by code_simp
  have "find_poster artwork_fs [''Show''] = Some ([''Show''] @ [''poster.jpg''])"
    using find_poster_spec [of _ artwork_fs "[''Show'']"] 1 by blast
  moreover have "find_poster artwork_fs [''Film''] = Some ([''Film''] @ [''folder.jpg''])"
    using find_poster_spec [of _ artwork_fs "[''Film'']"] 2 by blast
  moreover have "find_poster artwork_fs [''Other''] = Some (hd (glob_suffix artwork_fs [''Other''] (image_exts ! 1)))"
    using find_poster_spec [of _ artwork_fs "[''Other'']" 1] 3 by blast
  moreover have "find_poster artwork_fs [''Bare''] = None"
    using find_poster_spec [of _ artwork_fs "[''Bare'']"] 4 by blast
  moreover have "find_poster artwork_fs [''Missing''] = None"
    using find_poster_spec [of _ artwork_fs "[''Missing'']"] 5 by blast
  ultimately show ?thesis
    using g3 by simp
qed


section \<open>Seasons\<close>

lemma season_loop_numbers:
  "map season_number (season_loop fs show_dir dirs acc) =
     map season_number acc @ List.map_filter (\<lambda>d. parse_season_number (path_name d)) dirs"
  by (induction dirs arbitrary: acc)
     (simp_all add: List.map_filter_simps parse_season_number_def Let_def split: option.splits)

lemma mset_map_filter_sort:
  "mset (List.map_filter g (sort xs)) = mset (List.map_filter g xs)"
  by (simp add: List.map_filter_def)

lemma map_sort_key: "map f (sort_key f xs) = sort (map f xs)"
  by (rule properties_for_sort [symmetric]) simp_all

lemma collect_season_info_numbers:
  assumes "collect_season_info fs show_dir = Inr ss"
  shows "map season_number ss = sort (season_numbers fs show_dir)"
proof -
  from assms obtain entries where e: "iterdir fs show_dir = Inr entries"
    by (auto simp: collect_season_info_def split: sum.splits)
  have "mset (map season_number ss) = mset (season_numbers fs show_dir)"
    using assms e
    by (auto simp: collect_season_info_def season_numbers_def season_directories_def Let_def
        map_sort_key season_loop_numbers mset_map_filter_sort simp flip: mset_map)
  moreover have "sorted (map season_number ss)"
    using assms e by (auto simp: collect_season_info_def Let_def)
  ultimately show ?thesis
    using properties_for_sort [of "map season_number ss" "season_numbers fs show_dir"] by simp
qed

text \<open>
  Claim C2, as amended. The seasons of a show entity are sorted by season number in ascending
  order, and they hold one record for each season directory that yields a number: the
  numbers of the records are the numbers of those directories, sorted. Directories that
  yield the same number each keep their record, so a number can occur more than once.
\<close>

theorem seasons_sorted_with_repeats:
  assumes "parse_tvshow_with_seasons fs p = Some item"
  shows "\<exists>ss. seasons item = Some ss
           \<and> collect_season_info fs (parent p) = Inr ss
           \<and> sorted (map season_number ss)
           \<and> map season_number ss = sort (season_numbers fs (parent p))"
proof -
  from assms obtain ss where c: "collect_season_info fs (parent p) = Inr ss"
    and s: "seasons item = Some ss"
    by (auto simp: parse_tvshow_with_seasons_def Let_def split: option.splits sum.splits)
  have "map season_number ss = sort (season_numbers fs (parent p))"
    by (rule collect_season_info_numbers [OF c])
  then show ?thesis
    using c s by simp
qed

text \<open>
  Claim C2 as stated fails: a show directory with the subdirectories \<open>Season 1\<close> and
  \<open>Season 01\<close> gets two season records with the number 1.
\<close>

theorem seasons_duplicate_numbers:
  "collect_season_info dup_season_fs [''Show''] =
     Inr [\<lparr>season_number = 1, episode_count = 0, season_poster_path = None\<rparr>,
          \<lparr>season_number = 1, episode_count = 1, season_poster_path = None\<rparr>]
   \<and> map seasons (fst (scan dup_season_fs (new_scanner []))) =
       [Some [\<lparr>season_number = 1, episode_count = 0, season_poster_path = None\<rparr>,
              \<lparr>season_number = 1, episode_count = 1, season_poster_path = None\<rparr>]]"
  by code_simp

text \<open>The amended claim C2 applies to that show.\<close>

theorem seasons_sorted_with_repeats_witness:
  "\<exists>item ss. parse_tvshow_with_seasons dup_season_fs [''Show'', ''tvshow.nfo''] = Some item
      \<and> seasons item = Some ss \<and> map season_number ss = [1, 1] \<and> sorted (map season_number ss)"
proof -
  have "parse_tvshow_with_seasons dup_season_fs [''Show'', ''tvshow.nfo''] \<noteq> None"
    by code_simp
  then obtain item where
    i: "parse_tvshow_with_seasons dup_season_fs [''Show'', ''tvshow.nfo''] = Some item"
    by blast
  from seasons_sorted_with_repeats [OF i] obtain ss where
    s: "seasons item = Some ss" "sorted (map season_number ss)"
       "map season_number ss = sort (season_numbers dup_season_fs (parent [''Show'', ''tvshow.nfo'']))"
    by blast
  have "sort (season_numbers dup_season_fs (parent [''Show'', ''tvshow.nfo''])) = [1, 1]"
    by code_simp
  with i s show ?thesis by auto
qed


section \<open>Scanning\<close>

lemma classify_loop_tvshow:
  "tvshow_nfos (classify_loop fs files cl) = tvshow_nfos cl @ filter is_tvshow_name files"
  by (induction files arbitrary: cl)
     (simp_all add: classify_def is_tvshow_name_def Let_def split: option.splits)

lemma classify_loop_movie:
  "movie_nfos (classify_loop fs files cl) = movie_nfos cl @ filter (is_movie_nfo fs) files"
  by (induction files arbitrary: cl)
     (simp_all add: classify_def is_movie_nfo_def is_tvshow_name_def is_episode_name_def root_tag_def
        Let_def split: option.splits)

lemma parse_loop_map_filter: "parse_loop parser files acc = acc @ List.map_filter parser files"
  by (induction files arbitrary: acc) (simp_all add: List.map_filter_simps split: option.splits)

lemma scan_files_eq:
  "scan_files fs files acc =
     acc @ List.map_filter (parse_nfo fs) (filter (is_movie_nfo fs) files)
         @ List.map_filter (parse_tvshow_with_seasons fs) (filter is_tvshow_name files)"
  by (simp add: scan_files_def Let_def classify_loop_tvshow classify_loop_movie parse_loop_map_filter)

lemma parse_nfo_Some:
  "parse_nfo fs f = Some item \<Longrightarrow> nfo_path item = f \<and> root_tag fs f = Some (media_type item)"
  by (auto simp: parse_nfo_def root_tag_def split: option.splits)

lemma parse_nfo_movie:
  "is_movie_nfo fs f \<Longrightarrow> \<exists>item. parse_nfo fs f = Some item \<and> nfo_path item = f \<and> media_type item = ''movie''"
  by (auto simp: is_movie_nfo_def parse_nfo_def root_tag_def split: option.splits)

lemma parse_tvshow_Some:
  "parse_tvshow_with_seasons fs f = Some item \<Longrightarrow> nfo_path item = f \<and> media_type item = ''tvshow''"
  by (auto simp: parse_tvshow_with_seasons_def Let_def split: option.splits sum.splits)

lemma parent_is_dir:
  assumes "parse fs f \<noteq> None" "f \<noteq> []"
  shows "\<exists>es. fs_lookup fs (parent f) = Some (Dir es)"
proof -
  from assms(2) have f: "f = butlast f @ [last f]" by simp
  from assms(1) have "fs_lookup fs (butlast f @ [last f]) \<noteq> None"
    unfolding parse_def using f by (auto split: option.splits)
  then obtain m where m: "fs_lookup fs (butlast f) = Some m" "fs_lookup m [last f] \<noteq> None"
    by (auto simp: fs_lookup_append split: option.splits)
  then show ?thesis
    by (cases m) (simp_all add: parent_def)
qed

lemma parse_tvshow_None_iff:
  assumes "is_tvshow_name f"
  shows "parse_tvshow_with_seasons fs f \<noteq> None \<longleftrightarrow> parse fs f \<noteq> None"
proof
  assume "parse_tvshow_with_seasons fs f \<noteq> None"
  then show "parse fs f \<noteq> None"
    by (auto simp: parse_tvshow_with_seasons_def split: option.splits)
next
  assume p: "parse fs f \<noteq> None"
  from assms have "f \<noteq> []"
    by (auto simp: is_tvshow_name_def path_name_def str_lower_def)
  from parent_is_dir [OF p this] obtain es where "fs_lookup fs (parent f) = Some (Dir es)" ..
  then have "\<exists>ss. collect_season_info fs (parent f) = Inr ss"
    by (simp add: collect_season_info_def iterdir_def Let_def)
  with p show "parse_tvshow_with_seasons fs f \<noteq> None"
    by (auto simp: parse_tvshow_with_seasons_def Let_def)
qed

lemma map_filter_paths:
  assumes "\<And>f item. f \<in> set files \<Longrightarrow> parser f = Some item \<Longrightarrow> nfo_path item = f"
  shows "map nfo_path (List.map_filter parser files) = filter (\<lambda>f. parser f \<noteq> None) files"
  using assms by (induction files) (auto simp: List.map_filter_simps split: option.splits)

lemma map_filter_types:
  assumes "\<And>f item. f \<in> set files \<Longrightarrow> parser f = Some item \<Longrightarrow> media_type item = t"
  shows "map media_type (List.map_filter parser files) = replicate (length (List.map_filter parser files)) t"
  using assms by (induction files) (auto simp: List.map_filter_simps split: option.splits)

lemma movie_paths:
  "map nfo_path (List.map_filter (parse_nfo fs) (filter (is_movie_nfo fs) files)) = filter (is_movie_nfo fs) files"
proof -
  have "map nfo_path (List.map_filter (parse_nfo fs) (filter (is_movie_nfo fs) files))
          = filter (\<lambda>f. parse_nfo fs f \<noteq> None) (filter (is_movie_nfo fs) files)"
    by (rule map_filter_paths) (simp add: parse_nfo_Some)
  also have "\<dots> = filter (is_movie_nfo fs) files"
    unfolding filter_filter by (rule filter_cong) (auto dest: parse_nfo_movie)
  finally show ?thesis .
qed

lemma show_paths:
  "map nfo_path (List.map_filter (parse_tvshow_with_seasons fs) (filter is_tvshow_name files)) = filter (is_show_nfo fs) files"
proof -
  have "map nfo_path (List.map_filter (parse_tvshow_with_seasons fs) (filter is_tvshow_name files))
          = filter (\<lambda>f. parse_tvshow_with_seasons fs f \<noteq> None) (filter is_tvshow_name files)"
    by (rule map_filter_paths) (simp add: parse_tvshow_Some)
  also have "\<dots> = filter (is_show_nfo fs) files"
    unfolding filter_filter is_show_nfo_def
    by (rule filter_cong [OF refl]) (use parse_tvshow_None_iff in blast)
  finally show ?thesis .
qed

lemma scan_files_paths:
  "map nfo_path (scan_files fs files []) = filter (is_movie_nfo fs) files @ filter (is_show_nfo fs) files"
  by (simp add: scan_files_eq movie_paths show_paths)

lemma movie_types:
  "map media_type (List.map_filter (parse_nfo fs) (filter (is_movie_nfo fs) files))
     = replicate (length (filter (is_movie_nfo fs) files)) ''movie''"
proof -
  have "length (List.map_filter (parse_nfo fs) (filter (is_movie_nfo fs) files))
          = length (map nfo_path (List.map_filter (parse_nfo fs) (filter (is_movie_nfo fs) files)))"
    by simp
  also have "\<dots> = length (filter (is_movie_nfo fs) files)"
    unfolding movie_paths ..
  finally have l: "length (List.map_filter (parse_nfo fs) (filter (is_movie_nfo fs) files))
          = length (filter (is_movie_nfo fs) files)" .
  have "map media_type (List.map_filter (parse_nfo fs) (filter (is_movie_nfo fs) files))
          = replicate (length (List.map_filter (parse_nfo fs) (filter (is_movie_nfo fs) files))) ''movie''"
  proof (rule map_filter_types)
    fix f item
    assume "f \<in> set (filter (is_movie_nfo fs) files)" and p: "parse_nfo fs f = Some item"
    then have "root_tag fs f = Some ''movie''"
      by (simp add: is_movie_nfo_def)
    with parse_nfo_Some [OF p] show "media_type item = ''movie''"
      by simp
  qed
  with l show ?thesis by simp
qed

lemma show_types:
  "map media_type (List.map_filter (parse_tvshow_with_seasons fs) (filter is_tvshow_name files))
     = replicate (length (filter (is_show_nfo fs) files)) ''tvshow''"
proof -
  have "length (List.map_filter (parse_tvshow_with_seasons fs) (filter is_tvshow_name files))
          = length (map nfo_path (List.map_filter (parse_tvshow_with_seasons fs) (filter is_tvshow_name files)))"
    by simp
  also have "\<dots> = length (filter (is_show_nfo fs) files)"
    unfolding show_paths ..
  finally have l: "length (List.map_filter (parse_tvshow_with_seasons fs) (filter is_tvshow_name files))
          = length (filter (is_show_nfo fs) files)" .
  have "map media_type (List.map_filter (parse_tvshow_with_seasons fs) (filter is_tvshow_name files))
          = replicate (length (List.map_filter (parse_tvshow_with_seasons fs) (filter is_tvshow_name files))) ''tvshow''"
    by (rule map_filter_types) (simp add: parse_tvshow_Some)
  with l show ?thesis by simp
qed

lemma scan_files_types:
  "map media_type (scan_files fs files []) =
     replicate (length (filter (is_movie_nfo fs) files)) ''movie''
     @ replicate (length (filter (is_show_nfo fs) files)) ''tvshow''"
  by (simp add: scan_files_eq movie_types show_types)

text \<open>
  Claim C5, as amended. The entities returned by a first scan are the Movie entities, in the
  order in which their descriptors were discovered, followed by the Show entities, in the
  order in which their descriptors were discovered. A show stands after every movie,
  wherever its descriptor was discovered.
\<close>

theorem scan_movies_before_shows:
  "map nfo_path (fst (scan fs (new_scanner base)))
     = filter (is_movie_nfo fs) (rglob_suffix fs base ''.nfo'')
       @ filter (is_show_nfo fs) (rglob_suffix fs base ''.nfo'')
   \<and> map media_type (fst (scan fs (new_scanner base)))
     = replicate (length (filter (is_movie_nfo fs) (rglob_suffix fs base ''.nfo''))) ''movie''
       @ replicate (length (filter (is_show_nfo fs) (rglob_suffix fs base ''.nfo''))) ''tvshow''"
  by (simp add: scan_def new_scanner_def Let_def scan_files_paths scan_files_types)

text \<open>
  Claim C5 as stated fails: the descriptor of the show \<open>Lost\<close> is discovered before the
  descriptor of the movie \<open>Heat\<close>, and the scan returns the movie first.
\<close>

theorem scan_show_discovered_first:
  "rglob_suffix show_first_fs [] ''.nfo'' = [[''Lost'', ''tvshow.nfo''], [''Heat'', ''heat.nfo'']]
   \<and> map nfo_path (fst (scan show_first_fs (new_scanner []))) = [[''Heat'', ''heat.nfo''], [''Lost'', ''tvshow.nfo'']]
   \<and> map media_type (fst (scan show_first_fs (new_scanner []))) = [''movie'', ''tvshow'']"
  by code_simp

text \<open>
  Claim C3, as amended. A discovered descriptor that is neither named \<open>tvshow.nfo\<close> nor
  matches the episode pattern is parsed and classified by its root tag alone: a \<open>movie\<close>
  root yields a Movie entity, and every other root, \<open>episodedetails\<close> and \<open>tvshow\<close>
  included, yields no entity, as does a file that cannot be parsed. An entity made from such
  a file is always a Movie.
\<close>

theorem scan_other_descriptor:
  assumes "f \<in> set (rglob_suffix fs base ''.nfo'')"
    and "\<not> is_tvshow_name f" and "\<not> is_episode_name f"
  shows "(root_tag fs f = Some ''movie'' \<longrightarrow>
            (\<exists>item\<in>set (fst (scan fs (new_scanner base))). nfo_path item = f \<and> media_type item = ''movie''))
       \<and> (root_tag fs f \<noteq> Some ''movie'' \<longrightarrow>
            (\<forall>item\<in>set (fst (scan fs (new_scanner base))). nfo_path item \<noteq> f))
       \<and> (\<forall>item\<in>set (fst (scan fs (new_scanner base))). nfo_path item = f \<longrightarrow> media_type item = ''movie'')"
proof -
  let ?files = "rglob_suffix fs base ''.nfo''"
  let ?movies = "List.map_filter (parse_nfo fs) (filter (is_movie_nfo fs) ?files)"
  let ?shows = "List.map_filter (parse_tvshow_with_seasons fs) (filter is_tvshow_name ?files)"
  have s: "fst (scan fs (new_scanner base)) = ?movies @ ?shows"
    by (simp add: scan_def new_scanner_def Let_def scan_files_eq)
  have m: "item \<in> set ?movies \<Longrightarrow> media_type item = ''movie'' \<and> is_movie_nfo fs (nfo_path item)" for item
    using parse_nfo_Some parse_nfo_movie by (fastforce simp: List.map_filter_def)
  have t: "item \<in> set ?shows \<Longrightarrow> is_tvshow_name (nfo_path item)" for item
    using parse_tvshow_Some by (fastforce simp: List.map_filter_def)
  have 1: "\<exists>item\<in>set ?movies. nfo_path item = f \<and> media_type item = ''movie''"
    if "root_tag fs f = Some ''movie''"
  proof -
    from that assms have i: "is_movie_nfo fs f"
      by (simp add: is_movie_nfo_def)
    then obtain item where "parse_nfo fs f = Some item" "nfo_path item = f" "media_type item = ''movie''"
      using parse_nfo_movie by blast
    with i assms(1) show ?thesis
      by (force simp: List.map_filter_def)
  qed
  have 2: "nfo_path item \<noteq> f" if "root_tag fs f \<noteq> Some ''movie''" "item \<in> set (?movies @ ?shows)" for item
    using that m [of item] t [of item] assms(2) by (auto simp: is_movie_nfo_def)
  have 3: "media_type item = ''movie''" if "item \<in> set (?movies @ ?shows)" "nfo_path item = f" for item
    using that m [of item] t [of item] assms(2) by auto
  show ?thesis
    unfolding s using 1 2 3 by auto
qed

text \<open>
  Claim C3 as stated fails: the descriptor \<open>lost.nfo\<close> has a \<open>tvshow\<close> root, is not named
  \<open>tvshow.nfo\<close> and does not match the episode pattern, and the scan yields no entity.
\<close>

theorem scan_stray_show_descriptor:
  "rglob_suffix stray_show_fs [] ''.nfo'' = [[''Lost'', ''lost.nfo''], [''Lost'', ''Season 1'', ''S01E01.nfo'']]
   \<and> \<not> is_tvshow_name [''Lost'', ''lost.nfo''] \<and> \<not> is_episode_name [''Lost'', ''lost.nfo'']
   \<and> root_tag stray_show_fs [''Lost'', ''lost.nfo''] = Some ''tvshow''
   \<and> fst (scan stray_show_fs (new_scanner [])) = []"
  by code_simp

text \<open>The amended claim C3 on a movie descriptor and on the descriptor above.\<close>

theorem scan_other_descriptor_witness:
  "[''Heat'', ''heat.nfo''] \<in> set (rglob_suffix show_first_fs [] ''.nfo'')
   \<and> (\<exists>item\<in>set (fst (scan show_first_fs (new_scanner []))).
         nfo_path item = [''Heat'', ''heat.nfo''] \<and> media_type item = ''movie'')
   \<and> [''Lost'', ''lost.nfo''] \<in> set (rglob_suffix stray_show_fs [] ''.nfo'')
   \<and> [''Lost'', ''lost.nfo''] \<notin> nfo_path ` set (fst (scan stray_show_fs (new_scanner [])))"
proof -
  have a: "[''Heat'', ''heat.nfo''] \<in> set (rglob_suffix show_first_fs [] ''.nfo'')"
    "\<not> is_tvshow_name [''Heat'', ''heat.nfo'']" "\<not> is_episode_name [''Heat'', ''heat.nfo'']"
    "root_tag show_first_fs [''Heat'', ''heat.nfo''] = Some ''movie''"
    by code_simp+
  have b: "[''Lost'', ''lost.nfo''] \<in> set (rglob_suffix stray_show_fs [] ''.nfo'')"
    "\<not> is_tvshow_name [''Lost'', ''lost.nfo'']" "\<not> is_episode_name [''Lost'', ''lost.nfo'']"
    "root_tag stray_show_fs [''Lost'', ''lost.nfo''] \<noteq> Some ''movie''"
    by code_simp+
  show ?thesis
    using scan_other_descriptor [OF a(1-3)] scan_other_descriptor [OF b(1-3)] a(1,4) b(1,4)
    by (auto simp: image_iff)
qed

text \<open>
  Claim C4, as amended. The scan of a root path that does not exist, or that is not a
  directory, raises no error: it returns the empty sequence and leaves the scanner as it
  was, exactly as the scan of a root under which no descriptor is found.
\<close>

theorem scan_missing_root_empty:
  "(\<not> is_dir fs base \<longrightarrow> scan fs (new_scanner base) = ([], new_scanner base))
   \<and> (rglob_suffix fs base ''.nfo'' = [] \<longrightarrow> scan fs (new_scanner base) = ([], new_scanner base))"
proof -
  have e: "rglob_suffix fs base ''.nfo'' = [] \<Longrightarrow> scan fs (new_scanner base) = ([], new_scanner base)"
    by (simp add: scan_def new_scanner_def Let_def scan_files_eq List.map_filter_simps)
  have "\<not> is_dir fs base \<Longrightarrow> rglob_suffix fs base ''.nfo'' = []"
    by (auto simp: is_dir_def rglob_suffix_def split: option.splits node.splits)
  with e show ?thesis by blast
qed

text \<open>
  Claim C4 as stated fails: the scan of a missing root and the scan of an empty directory
  both return the empty sequence, and nothing in the results tells them apart.
\<close>

theorem scan_missing_root_like_empty_library:
  "\<not> path_exists empty_root_fs [''missing'']
   \<and> scan empty_root_fs (new_scanner [''missing'']) = ([], new_scanner [''missing''])
   \<and> is_dir empty_root_fs [''empty'']
   \<and> scan empty_root_fs (new_scanner [''empty'']) = ([], new_scanner [''empty''])"
  by code_simp

text \<open>The amended claim C4 on the same two roots.\<close>

theorem scan_missing_root_empty_witness:
  "\<not> is_dir empty_root_fs [''missing''] \<and> fst (scan empty_root_fs (new_scanner [''missing''])) = []
   \<and> rglob_suffix empty_root_fs [''empty''] ''.nfo'' = [] \<and> fst (scan empty_root_fs (new_scanner [''empty''])) = []"
proof -
  have a: "\<not> is_dir empty_root_fs [''missing'']" by code_simp
  have b: "rglob_suffix empty_root_fs [''empty''] ''.nfo'' = []" by code_simp
  show ?thesis
    using scan_missing_root_empty [of empty_root_fs "[''missing'']"]
      scan_missing_root_empty [of empty_root_fs "[''empty'']"] a b
    by simp
qed


section \<open>Sorting by year\<close>

text \<open>
  Sorting by year is descending in the whole key, the pair of the year and the sort key of
  the title, and keeps every entity.
\<close>

lemma sort_by_year_descending: "sorted (rev (map year_key (sort_by_year xs)))"
  by (simp add: sort_by_year_def sorted_reverse_def rev_map)

lemma sort_by_year_mset: "mset (sort_by_year xs) = mset xs"
  by (simp add: sort_by_year_def sorted_reverse_def)

text \<open>
  Claim C1. Sorting by year puts later years first and entities without a year after the
  year 1999, as the claim says. Two entities of the same year, however, come out in
  descending order of their sort keys, not in ascending order: \<open>Beta\<close> before \<open>Alpha\<close>.
\<close>

theorem sort_by_year_same_year_reversed:
  "map title (sort_by_year [example_item ''Alpha'' (Some ''2000''), example_item ''Beta'' (Some ''2000'')])
     = [''Beta'', ''Alpha'']
   \<and> get_sort_key ''Alpha'' < get_sort_key ''Beta''
   \<and> map year (sort_by_year [example_item ''A'' (Some ''2001''), example_item ''B'' None,
                              example_item ''C'' (Some ''1999'')])
     = [Some ''2001'', Some ''1999'', None]"
  by code_simp

end
